theory Spec2Isabelle
  imports Complex_Main "HOL-Library.Multiset" "HOL-Library.List_Lexorder"
begin

section \<open>JavaScript values used by the expansion sanitizer\<close>

text \<open>
  A JavaScript string is a sequence of UTF-16 code units; the regular expressions of
  \<open>src/server/expand.ts\<close> carry no \<open>u\<close> flag and so test code units. A code unit is
  modelled as a natural number.
\<close>

type_synonym jstring = "nat list"

definition u16 :: "string \<Rightarrow> jstring" where
  "u16 s = map of_char s"

text \<open>
  The payload \<open>raw\<close> is the result of \<open>JSON.parse\<close>. A number is carried as the text
  that \<open>String()\<close> renders it as, which is all the sanitizer ever asks of a number; an
  object is the list of its own properties.
\<close>

datatype json =
    JNull
  | JBool bool
  | JNum jstring
  | JStr jstring
  | JArr "json list"
  | JObj "(jstring \<times> json) list"

datatype error = TypeError

definition bindE :: "error + 'a \<Rightarrow> ('a \<Rightarrow> error + 'b) \<Rightarrow> error + 'b" where
  "bindE m f = (case m of Inl e \<Rightarrow> Inl e | Inr x \<Rightarrow> f x)"

fun mapE :: "('a \<Rightarrow> error + 'b) \<Rightarrow> 'a list \<Rightarrow> error + 'b list" where
  "mapE f [] = Inr []"
| "mapE f (x # xs) = bindE (f x) (\<lambda>y. bindE (mapE f xs) (\<lambda>ys. Inr (y # ys)))"

fun filterE :: "('a \<Rightarrow> error + bool) \<Rightarrow> 'a list \<Rightarrow> error + 'a list" where
  "filterE p [] = Inr []"
| "filterE p (x # xs) =
     bindE (p x) (\<lambda>b. bindE (filterE p xs) (\<lambda>ys. Inr (if b then x # ys else ys)))"

text \<open>
  Property read \<open>v.name\<close>; \<open>None\<close> is \<open>undefined\<close>. The sanitizer reads only the names
  \<open>nodes\<close>, \<open>edges\<close>, \<open>id\<close>, \<open>label\<close>, \<open>kind\<close>, \<open>source\<close> and \<open>target\<close>, none of which
  is inherited by a primitive, an array or a plain object, so only an object's own
  properties answer.
\<close>

fun getProp :: "json \<Rightarrow> jstring \<Rightarrow> json option" where
  "getProp (JObj kvs) name = map_of kvs name"
| "getProp _ name = None"

fun joinComma :: "jstring list \<Rightarrow> jstring" where
  "joinComma [] = []"
| "joinComma [s] = s"
| "joinComma (s # t # ss) = s @ u16 '','' @ joinComma (t # ss)"

text \<open>
  \<open>String(v)\<close>. An array is joined with commas, \<open>null\<close> elements giving the empty
  string. A plain object answers \<open>[object Object]\<close> through the inherited \<open>toString\<close>;
  an own property \<open>toString\<close> parsed from JSON is not callable, the inherited \<open>valueOf\<close>
  returns the object itself, and the conversion throws a TypeError.
\<close>

fun js_String :: "json \<Rightarrow> error + jstring"
  and js_elements :: "json list \<Rightarrow> error + jstring list" where
  "js_String JNull = Inr (u16 ''null'')"
| "js_String (JBool b) = Inr (if b then u16 ''true'' else u16 ''false'')"
| "js_String (JNum s) = Inr s"
| "js_String (JStr s) = Inr s"
| "js_String (JArr xs) = bindE (js_elements xs) (\<lambda>ss. Inr (joinComma ss))"
| "js_String (JObj kvs) =
     (if u16 ''toString'' \<in> fst ` set kvs then Inl TypeError
      else Inr (u16 ''[object Object]''))"
| "js_elements [] = Inr []"
| "js_elements (x # xs) =
     bindE (if x = JNull then Inr [] else js_String x)
       (\<lambda>s. bindE (js_elements xs) (\<lambda>ss. Inr (s # ss)))"

text \<open>\<open>String(v)\<close> of a property that may be absent: \<open>String(undefined)\<close> is \<open>undefined\<close>.\<close>

fun js_String_prop :: "json option \<Rightarrow> error + jstring" where
  "js_String_prop None = Inr (u16 ''undefined'')"
| "js_String_prop (Some v) = js_String v"

text \<open>\<open>String.prototype.trim\<close> strips white space and line terminators at both ends.\<close>

definition isWhiteSpace :: "nat \<Rightarrow> bool" where
  "isWhiteSpace c \<longleftrightarrow>
     c \<in> {0x09, 0x0A, 0x0B, 0x0C, 0x0D, 0x20, 0xA0, 0x1680, 0x2028, 0x2029, 0x202F,
          0x205F, 0x3000, 0xFEFF} \<or> (0x2000 \<le> c \<and> c \<le> 0x200A)"

definition trim :: "jstring \<Rightarrow> jstring" where
  "trim s = rev (dropWhile isWhiteSpace (rev (dropWhile isWhiteSpace s)))"

text \<open>Decimal rendering of a loop counter or array index in a template literal.\<close>

function dec :: "nat \<Rightarrow> jstring" where
  "dec n = (if n < 10 then [48 + n] else dec (n div 10) @ [48 + n mod 10])"
  by pat_completeness auto
termination
  by (relation "measure id") auto

declare dec.simps [simp del]

section \<open>The sanitizer of \<open>src/server/expand.ts\<close>\<close>

text \<open>
  A node of the response. \<open>focusDepth\<close> and the depth are JavaScript numbers, IEEE
  doubles: the number type \<open>'n\<close> is arbitrary, and \<open>+\<close> and \<open>1\<close> in \<open>focusDepth + 1\<close> are
  the addition and the one of that type, of which no law is assumed. Over the doubles the
  sum is rounded (at \<open>focusDepth\<close> = 2^53 it is 2^53) and is NaN for NaN; the concrete
  payloads below are run over the integers, where the sum of 0 and 1 is exact in both.
\<close>

record 'n node =
  nid :: jstring
  nlabel :: jstring
  nkind :: jstring
  ndepth :: 'n

text \<open>
  An edge label is a string, except that \<open>edgeLabelJa\<close> indexes an object literal with
  the kind: a kind that names a member of \<open>Object.prototype\<close> reads that inherited
  member, which is not nullish and so is returned in place of a string.
\<close>

datatype labelval = LStr jstring | LProto jstring

record edge =
  eid :: jstring
  esource :: jstring
  etarget :: jstring
  elabel :: labelval

record 'n expandResponse =
  nodes :: "'n node list"
  edges :: "edge list"

datatype domain = Perfume | Wine | Unknown

definition looksAsciiOnly :: "jstring \<Rightarrow> bool" where
  "looksAsciiOnly s \<longleftrightarrow> s \<noteq> [] \<and> list_all (\<lambda>c. c \<le> 0x7F) s"

definition hasJapaneseChar :: "jstring \<Rightarrow> bool" where
  "hasJapaneseChar s \<longleftrightarrow>
     list_ex (\<lambda>c. (0x3040 \<le> c \<and> c \<le> 0x30FF) \<or> (0x3400 \<le> c \<and> c \<le> 0x9FFF)) s"

definition inferDomainFromAllowedKinds :: "jstring list \<Rightarrow> domain" where
  "inferDomainFromAllowedKinds allowedKinds =
     (if u16 ''producer'' \<in> set allowedKinds \<or> u16 ''grape'' \<in> set allowedKinds
         \<or> u16 ''appellation'' \<in> set allowedKinds then Wine
      else if u16 ''brand'' \<in> set allowedKinds \<or> u16 ''note'' \<in> set allowedKinds
         \<or> u16 ''perfumer'' \<in> set allowedKinds then Perfume
      else Unknown)"

definition relatedJa :: jstring where
  "relatedJa = [0x95A2, 0x9023]"

definition objectPrototypeMembers :: "jstring list" where
  "objectPrototypeMembers = map u16
     [''constructor'', ''__defineGetter__'', ''__defineSetter__'', ''hasOwnProperty'',
      ''__lookupGetter__'', ''__lookupSetter__'', ''isPrototypeOf'',
      ''propertyIsEnumerable'', ''toString'', ''valueOf'', ''__proto__'',
      ''toLocaleString'']"

definition perfumeLabels :: "(jstring \<times> jstring) list" where
  "perfumeLabels =
     [(u16 ''brand'', [0x30D6, 0x30E9, 0x30F3, 0x30C9]),
      (u16 ''perfume'', [0x9999, 0x6C34]),
      (u16 ''note'', [0x30CE, 0x30FC, 0x30C8]),
      (u16 ''accord'', [0x30A2, 0x30B3, 0x30FC, 0x30C9]),
      (u16 ''perfumer'', [0x8ABF, 0x9999, 0x5E2B]),
      (u16 ''style'', [0x30B9, 0x30BF, 0x30A4, 0x30EB]),
      (u16 ''category'', [0x30AB, 0x30C6, 0x30B4, 0x30EA]),
      (u16 ''root'', [0x95A2, 0x9023])]"

definition wineLabels :: "(jstring \<times> jstring) list" where
  "wineLabels =
     [(u16 ''producer'', [0x751F, 0x7523, 0x8005]),
      (u16 ''wine'', [0x30EF, 0x30A4, 0x30F3]),
      (u16 ''region'', [0x5730, 0x57DF]),
      (u16 ''appellation'', [0x547C, 0x79F0]),
      (u16 ''grape'', [0x54C1, 0x7A2E]),
      (u16 ''vintage'', [0x30F4, 0x30A3, 0x30F3, 0x30C6, 0x30FC, 0x30B8]),
      (u16 ''style'', [0x30B9, 0x30BF, 0x30A4, 0x30EB]),
      (u16 ''root'', [0x95A2, 0x9023])]"

text \<open>\<open>m[targetKind] ?? "..."\<close> on an object literal \<open>m\<close>.\<close>

definition recordLookup :: "(jstring \<times> jstring) list \<Rightarrow> jstring \<Rightarrow> labelval" where
  "recordLookup m k =
     (case map_of m k of
        Some v \<Rightarrow> LStr v
      | None \<Rightarrow> if k \<in> set objectPrototypeMembers then LProto k else LStr relatedJa)"

definition edgeLabelJa :: "domain \<Rightarrow> jstring \<Rightarrow> labelval" where
  "edgeLabelJa d targetKind =
     (if d = Perfume then recordLookup perfumeLabels targetKind
      else if d = Wine then recordLookup wineLabels targetKind
      else LStr relatedJa)"

definition shouldRequireJapaneseLabel :: "domain \<Rightarrow> jstring \<Rightarrow> bool" where
  "shouldRequireJapaneseLabel d k =
     (if d = Perfume then k \<notin> set (map u16 [''brand'', ''perfume'', ''perfumer''])
      else if d = Wine then
        k \<notin> set (map u16 [''producer'', ''wine'', ''grape'', ''vintage'', ''appellation''])
      else False)"

text \<open>
  \<open>makeUniqueId\<close>: the \<open>while\<close> loop over the candidate and the counter, then
  \<open>used.add(id)\<close>. The set \<open>used\<close> is the list of its members.
\<close>

function makeUniqueId_loop :: "jstring \<Rightarrow> jstring list \<Rightarrow> jstring \<Rightarrow> nat \<Rightarrow> jstring" where
  "makeUniqueId_loop base used ident i =
     (if ident \<in> set used then makeUniqueId_loop base used (base @ u16 ''__'' @ dec i) (i + 1)
      else ident)"
  by pat_completeness auto

termination makeUniqueId_loop
proof (relation "measure (\<lambda>(base, used, ident, i).
    (if ident \<in> set used
     then Suc (card {u \<in> set used. \<exists>j\<ge>i. u = base @ u16 ''__'' @ dec j}) else 0))")
  show "wf (measure (\<lambda>(base, used, ident, i).
    (if ident \<in> set used
     then Suc (card {u \<in> set used. \<exists>j\<ge>i. u = base @ u16 ''__'' @ dec j}) else 0)))"
    by simp
next
  fix base :: jstring and used :: "jstring list" and ident :: jstring and i :: nat
  assume mem: "ident \<in> set used"
  have ne: "dec n \<noteq> []" for n
    by (subst dec.simps) simp
  have inj: "n = m" if "dec n = dec m" for n m
    using that
  proof (induction n arbitrary: m rule: dec.induct)
    case (1 n)
    show ?case
    proof (cases "n < 10")
      case True
      show ?thesis
      proof (cases "m < 10")
        case True
        with \<open>n < 10\<close> 1(2) show ?thesis by (simp add: dec.simps)
      next
        case False
        with \<open>n < 10\<close> 1(2) ne[of "m div 10"] show ?thesis
          by (simp add: dec.simps[of n] dec.simps[of m])
      qed
    next
      case False
      show ?thesis
      proof (cases "m < 10")
        case True
        with False 1(2) ne[of "n div 10"] show ?thesis
          by (simp add: dec.simps[of n] dec.simps[of m])
      next
        case m: False
        from False m 1(2) have "dec (n div 10) = dec (m div 10)" and "n mod 10 = m mod 10"
          by (simp_all add: dec.simps[of n] dec.simps[of m])
        with 1(1)[OF False] have "n div 10 = m div 10" by blast
        with \<open>n mod 10 = m mod 10\<close> show ?thesis
          by (metis div_mult_mod_eq)
      qed
    qed
  qed
  let ?c = "\<lambda>j. base @ u16 ''__'' @ dec j"
  let ?S = "\<lambda>k. {u \<in> set used. \<exists>j\<ge>k. u = ?c j}"
  have "card (?S (i + 1)) < card (?S i)" if "?c i \<in> set used"
  proof (rule psubset_card_mono)
    show "finite (?S i)" by simp
    have "?c i \<in> ?S i" using that by auto
    moreover have "?c i \<notin> ?S (i + 1)" using inj by fastforce
    moreover have "?S (i + 1) \<subseteq> ?S i" using Suc_leD by fastforce
    ultimately show "?S (i + 1) \<subset> ?S i" by blast
  qed
  then show "((base, used, ?c i, i + 1), (base, used, ident, i)) \<in> measure (\<lambda>(base, used, ident, i).
    (if ident \<in> set used
     then Suc (card {u \<in> set used. \<exists>j\<ge>i. u = base @ u16 ''__'' @ dec j}) else 0))"
    using mem by simp
qed

declare makeUniqueId_loop.simps [simp del]

definition makeUniqueId :: "jstring \<Rightarrow> jstring list \<Rightarrow> jstring \<times> jstring list" where
  "makeUniqueId base used =
     (let ident = makeUniqueId_loop base used base 1 in (ident, ident # used))"

text \<open>The receiver of \<open>.filter\<close>: only an array has the method; the call on any other
  value throws a TypeError.\<close>

fun arrayOf :: "json option \<Rightarrow> error + json list" where
  "arrayOf (Some (JArr xs)) = Inr xs"
| "arrayOf _ = Inl TypeError"

text \<open>\<open>a ?? b\<close> on properties that may be absent.\<close>

fun orElse :: "json option \<Rightarrow> json option \<Rightarrow> json option" where
  "orElse None d = d"
| "orElse (Some JNull) d = d"
| "orElse (Some v) d = Some v"

text \<open>\<open>n && typeof n.id === "string"\<close>\<close>

definition hasStringId :: "json \<Rightarrow> bool" where
  "hasStringId n = (case getProp n (u16 ''id'') of Some (JStr s) \<Rightarrow> True | _ \<Rightarrow> False)"

text \<open>\<open>allowedKinds[allowedKinds.length - 1] ?? "node"\<close>\<close>

definition fallbackKind :: "jstring list \<Rightarrow> jstring" where
  "fallbackKind allowedKinds = (if allowedKinds = [] then u16 ''node'' else last allowedKinds)"

definition normalizeNode ::
  "('n::{plus,one}) \<Rightarrow> jstring list \<Rightarrow> json \<Rightarrow> error + 'n node" where
  "normalizeNode focusDepth allowedKinds n =
     bindE (js_String_prop (getProp n (u16 ''id''))) (\<lambda>i.
     bindE (js_String_prop (orElse (getProp n (u16 ''label'')) (getProp n (u16 ''id'')))) (\<lambda>l.
     bindE (js_String_prop (getProp n (u16 ''kind''))) (\<lambda>k.
     bindE (if k \<in> set allowedKinds then js_String_prop (getProp n (u16 ''kind''))
            else Inr (fallbackKind allowedKinds)) (\<lambda>kind.
     Inr \<lparr>nid = trim i, nlabel = trim l, nkind = kind, ndepth = focusDepth + 1\<rparr>))))"

definition extractNodes ::
  "('n::{plus,one}) \<Rightarrow> jstring list \<Rightarrow> json \<Rightarrow> error + 'n node list" where
  "extractNodes focusDepth allowedKinds raw =
     bindE (arrayOf (orElse (getProp raw (u16 ''nodes'')) (Some (JArr [])))) (\<lambda>arr.
     bindE (mapE (normalizeNode focusDepth allowedKinds) (filter hasStringId arr)) (\<lambda>ns.
     Inr (filter (\<lambda>n. length (nid n) > 0) ns)))"

text \<open>\<open>.map((n) => ({ ...n, id: makeUniqueId(n.id, usedNodeIds) }))\<close>, the set threaded
  through the elements in order.\<close>

fun uniquifyNodes :: "'n node list \<Rightarrow> jstring list \<Rightarrow> 'n node list \<times> jstring list" where
  "uniquifyNodes [] used = ([], used)"
| "uniquifyNodes (n # ns) used =
     (let (i, used1) = makeUniqueId (nid n) used;
          (ns', used2) = uniquifyNodes ns used1
      in (n\<lparr>nid := i\<rparr> # ns', used2))"

definition languageOk :: "domain \<Rightarrow> 'n node \<Rightarrow> bool" where
  "languageOk d n =
     (if \<not> shouldRequireJapaneseLabel d (nkind n) then True
      else if hasJapaneseChar (nlabel n) then True
      else if looksAsciiOnly (nlabel n) then False
      else True)"

definition capNodes :: "'n node list \<Rightarrow> 'n node list" where
  "capNodes ns = (if length ns > 3 then take 3 ns else ns)"

text \<open>The candidates after extraction and id-collision resolution, before the language
  filter and the cap.\<close>

definition resolvedCandidates ::
  "('n::{plus,one}) \<Rightarrow> jstring list \<Rightarrow> jstring list \<Rightarrow> json \<Rightarrow> error + 'n node list" where
  "resolvedCandidates focusDepth existingElementIds allowedKinds raw =
     bindE (extractNodes focusDepth allowedKinds raw) (\<lambda>ns.
     Inr (fst (uniquifyNodes ns existingElementIds)))"

definition sanitizeNodes ::
  "('n::{plus,one}) \<Rightarrow> jstring list \<Rightarrow> jstring list \<Rightarrow> json \<Rightarrow> error + 'n node list" where
  "sanitizeNodes focusDepth existingElementIds allowedKinds raw =
     bindE (resolvedCandidates focusDepth existingElementIds allowedKinds raw) (\<lambda>ns.
     Inr (capNodes (filter (languageOk (inferDomainFromAllowedKinds allowedKinds)) ns)))"

text \<open>\<open>x != null\<close>\<close>

fun notNullish :: "json option \<Rightarrow> bool" where
  "notNullish None = False"
| "notNullish (Some JNull) = False"
| "notNullish (Some v) = True"

definition hasEndpoints :: "json \<Rightarrow> bool" where
  "hasEndpoints e \<longleftrightarrow>
     notNullish (getProp e (u16 ''source'')) \<and> notNullish (getProp e (u16 ''target''))"

definition sourceIsFocus :: "jstring \<Rightarrow> json \<Rightarrow> error + bool" where
  "sourceIsFocus focusId e =
     bindE (js_String_prop (getProp e (u16 ''source''))) (\<lambda>s. Inr (s = focusId))"

definition targetIsNew :: "jstring list \<Rightarrow> json \<Rightarrow> error + bool" where
  "targetIsNew newNodeIds e =
     bindE (js_String_prop (getProp e (u16 ''target''))) (\<lambda>t. Inr (t \<in> set newNodeIds))"

text \<open>The body of \<open>.map((e, i) => ...)\<close> for one model edge at index \<open>i\<close>.\<close>

definition modelEdge ::
  "jstring \<Rightarrow> domain \<Rightarrow> 'n node list \<Rightarrow> jstring list \<Rightarrow> json \<Rightarrow> nat \<Rightarrow>
     error + edge \<times> jstring list" where
  "modelEdge focusId d ns used e i =
     bindE (js_String_prop (getProp e (u16 ''target''))) (\<lambda>target.
     bindE (js_String_prop (orElse (getProp e (u16 ''id''))
              (Some (JStr (focusId @ u16 ''--'' @ target @ u16 ''--'' @ dec i))))) (\<lambda>base.
     let (ident, used1) = makeUniqueId base used in
     bindE (js_String_prop (orElse (getProp e (u16 ''label'')) (Some (JStr relatedJa)))) (\<lambda>l.
     Inr (\<lparr>eid = ident, esource = focusId, etarget = target,
           elabel = (if \<not> hasJapaneseChar l \<and> looksAsciiOnly l
                     then edgeLabelJa d (case find (\<lambda>n. nid n = target) ns of
                                           None \<Rightarrow> [] | Some n \<Rightarrow> nkind n)
                     else LStr l)\<rparr>, used1))))"

fun mapEdges ::
  "jstring \<Rightarrow> domain \<Rightarrow> 'n node list \<Rightarrow> json list \<Rightarrow> nat \<Rightarrow> jstring list \<Rightarrow>
     error + edge list \<times> jstring list" where
  "mapEdges focusId d ns [] i used = Inr ([], used)"
| "mapEdges focusId d ns (e # es) i used =
     bindE (modelEdge focusId d ns used e i) (\<lambda>(x, used1).
     bindE (mapEdges focusId d ns es (i + 1) used1) (\<lambda>(xs, used2).
     Inr (x # xs, used2)))"

definition edgesFromModel ::
  "jstring \<Rightarrow> domain \<Rightarrow> 'n node list \<Rightarrow> jstring list \<Rightarrow> json \<Rightarrow>
     error + edge list \<times> jstring list" where
  "edgesFromModel focusId d ns existingElementIds raw =
     bindE (arrayOf (orElse (getProp raw (u16 ''edges'')) (Some (JArr [])))) (\<lambda>arr.
     bindE (filterE (sourceIsFocus focusId) (filter hasEndpoints arr)) (\<lambda>es1.
     bindE (filterE (targetIsNew (map nid ns)) es1) (\<lambda>es2.
     mapEdges focusId d ns es2 0 existingElementIds)))"

text \<open>The \<open>for (const n of nodes)\<close> loop that completes the edges.\<close>

fun supplement ::
  "jstring \<Rightarrow> domain \<Rightarrow> jstring list \<Rightarrow> 'n node list \<Rightarrow> jstring list \<Rightarrow>
     edge list \<times> jstring list" where
  "supplement focusId d edgeTargets [] used = ([], used)"
| "supplement focusId d edgeTargets (n # ns) used =
     (if nid n \<in> set edgeTargets then supplement focusId d edgeTargets ns used
      else
        (let (ident, used1) = makeUniqueId (focusId @ u16 ''--'' @ nid n @ u16 ''--auto'') used;
             (es, used2) = supplement focusId d edgeTargets ns used1
         in (\<lparr>eid = ident, esource = focusId, etarget = nid n,
              elabel = edgeLabelJa d (nkind n)\<rparr> # es, used2)))"

text \<open>\<open>if (nodes.length > 0 && edges.length === 0) edges.push(...)\<close>\<close>

definition finalGuard ::
  "jstring \<Rightarrow> domain \<Rightarrow> 'n node list \<Rightarrow> edge list \<Rightarrow> jstring list \<Rightarrow> edge list" where
  "finalGuard focusId d ns es used =
     (case ns of
        [] \<Rightarrow> es
      | first # rest \<Rightarrow>
          if length es = 0
          then es @ [\<lparr>eid = fst (makeUniqueId (focusId @ u16 ''--'' @ nid first @ u16 ''--forced'') used),
                      esource = focusId, etarget = nid first,
                      elabel = edgeLabelJa d (nkind first)\<rparr>]
          else es)"

definition sanitizeExpandResult ::
  "jstring \<Rightarrow> ('n::{plus,one}) \<Rightarrow> jstring list \<Rightarrow> jstring list \<Rightarrow> json \<Rightarrow>
     error + 'n expandResponse" where
  "sanitizeExpandResult focusId focusDepth existingElementIds allowedKinds raw =
     (let domainGuess = inferDomainFromAllowedKinds allowedKinds in
      bindE (sanitizeNodes focusDepth existingElementIds allowedKinds raw) (\<lambda>ns.
      bindE (edgesFromModel focusId domainGuess ns existingElementIds raw) (\<lambda>(fromModel, usedEdgeIds).
      let (supplemented, usedEdgeIds1) =
            supplement focusId domainGuess (map etarget fromModel) ns usedEdgeIds
      in Inr \<lparr>nodes = ns,
              edges = finalGuard focusId domainGuess ns (fromModel @ supplemented) usedEdgeIds1\<rparr>)))"

text \<open>An edge that the completion loop makes for node \<open>n\<close>: from the focus to the node,
  labelled from the node's kind, its id the template \<open>focus--node--auto\<close> or that
  template with a \<open>__k\<close> suffix.\<close>

definition synthesizedEdge :: "jstring \<Rightarrow> domain \<Rightarrow> 'n node \<Rightarrow> edge \<Rightarrow> bool" where
  "synthesizedEdge focusId d n e \<longleftrightarrow>
     esource e = focusId \<and> etarget e = nid n \<and> elabel e = edgeLabelJa d (nkind n) \<and>
     (eid e = focusId @ u16 ''--'' @ nid n @ u16 ''--auto'' \<or>
      (\<exists>j\<ge>1. eid e = (focusId @ u16 ''--'' @ nid n @ u16 ''--auto'') @ u16 ''__'' @ dec j))"

subsection \<open>Concrete payloads\<close>

text \<open>The scenario of the specification's testable properties, a payload whose edge
  carries the id of its node, and a payload of four candidates for a perfume vocabulary,
  each with the response the sanitizer computes for it.\<close>

definition scenarioRaw :: json where
  "scenarioRaw = JObj
     [(u16 ''nodes'', JArr
        [JObj [(u16 ''id'', JStr (u16 ''a'')), (u16 ''label'', JStr (u16 ''Example'')),
               (u16 ''kind'', JStr (u16 ''unknownkind''))],
         JObj [(u16 ''id'', JStr (u16 ''a'')), (u16 ''label'', JStr [0x5225, 0x306E, 0x4F8B]),
               (u16 ''kind'', JStr (u16 ''concept''))]]),
      (u16 ''edges'', JArr [])]"

definition scenarioNodes :: "int node list" where
  "scenarioNodes =
     [\<lparr>nid = u16 ''a'', nlabel = u16 ''Example'', nkind = u16 ''concept'', ndepth = 1\<rparr>,
      \<lparr>nid = u16 ''a__1'', nlabel = [0x5225, 0x306E, 0x4F8B], nkind = u16 ''concept'',
        ndepth = 1\<rparr>]"

definition scenarioOut :: "int expandResponse" where
  "scenarioOut =
     \<lparr>nodes = scenarioNodes,
      edges =
        [\<lparr>eid = u16 ''root--a--auto'', esource = u16 ''root'', etarget = u16 ''a'',
           elabel = LStr relatedJa\<rparr>,
         \<lparr>eid = u16 ''root--a__1--auto'', esource = u16 ''root'', etarget = u16 ''a__1'',
           elabel = LStr relatedJa\<rparr>]\<rparr>"



definition fourNodesRaw :: json where
  "fourNodesRaw = JObj
     [(u16 ''nodes'', JArr
        [JObj [(u16 ''id'', JStr (u16 ''a'')), (u16 ''label'', JStr (u16 ''A'')),
               (u16 ''kind'', JStr (u16 ''note''))],
         JObj [(u16 ''id'', JStr (u16 ''b'')), (u16 ''label'', JStr (u16 ''B'')),
               (u16 ''kind'', JStr (u16 ''brand''))],
         JObj [(u16 ''id'', JStr (u16 ''c'')), (u16 ''label'', JStr (u16 ''C'')),
               (u16 ''kind'', JStr (u16 ''brand''))],
         JObj [(u16 ''id'', JStr (u16 ''d'')), (u16 ''label'', JStr (u16 ''D'')),
               (u16 ''kind'', JStr (u16 ''brand''))]])]"

definition fourCandidates :: "int node list" where
  "fourCandidates =
     [\<lparr>nid = u16 ''a'', nlabel = u16 ''A'', nkind = u16 ''note'', ndepth = 1\<rparr>,
      \<lparr>nid = u16 ''b'', nlabel = u16 ''B'', nkind = u16 ''brand'', ndepth = 1\<rparr>,
      \<lparr>nid = u16 ''c'', nlabel = u16 ''C'', nkind = u16 ''brand'', ndepth = 1\<rparr>,
      \<lparr>nid = u16 ''d'', nlabel = u16 ''D'', nkind = u16 ''brand'', ndepth = 1\<rparr>]"

definition fourNodesOut :: "int expandResponse" where
  "fourNodesOut =
     \<lparr>nodes = tl fourCandidates,
      edges =
        [\<lparr>eid = u16 ''root--b--auto'', esource = u16 ''root'', etarget = u16 ''b'',
           elabel = LStr [0x30D6, 0x30E9, 0x30F3, 0x30C9]\<rparr>,
         \<lparr>eid = u16 ''root--c--auto'', esource = u16 ''root'', etarget = u16 ''c'',
           elabel = LStr [0x30D6, 0x30E9, 0x30F3, 0x30C9]\<rparr>,
         \<lparr>eid = u16 ''root--d--auto'', esource = u16 ''root'', etarget = u16 ''d'',
           elabel = LStr [0x30D6, 0x30E9, 0x30F3, 0x30C9]\<rparr>]\<rparr>"

section \<open>The layout of \<open>GraphView.tsx\<close>\<close>

text \<open>
  The repository holds two versions of the component's \<open>placeChildrenForward\<close>: one
  sorts the child ids, staggers the children and pushes a crowded candidate forward; the
  other, in the version of the component with pending placeholders, places the children
  by their index in the list it is given. \<open>computeRingPositions\<close> is modelled from the
  version that groups all nodes by depth and sorts each group by id.
\<close>

text \<open>
  JavaScript numbers are IEEE doubles. The layout is modelled over an arbitrary number
  type \<open>'n\<close>: \<open>+\<close>, \<open>-\<close>, \<open>*\<close>, \<open>/\<close>, unary minus, \<open>abs\<close> and \<open><\<close> are the operations
  of that type, of which no law is assumed, and the other primitives are the fields of
  a record: \<open>lit\<close> reads an integer literal or counter as a number, \<open>falsy\<close> holds of the
  numbers that \<open>||\<close> replaces (zero and NaN).
\<close>

record 'n math =
  lit :: "int \<Rightarrow> 'n"
  hypot :: "'n \<Rightarrow> 'n \<Rightarrow> 'n"
  cosine :: "'n \<Rightarrow> 'n"
  sine :: "'n \<Rightarrow> 'n"
  piConst :: 'n
  falsy :: "'n \<Rightarrow> bool"

text \<open>The Cytoscape core as the layout sees it: the nodes in insertion order, each with
  its id, its \<open>depth\<close> datum and its position, and the edges in insertion order.\<close>

record 'n cynode =
  cid :: jstring
  cdepth :: int
  cpos :: "'n \<times> 'n"

record cyedge =
  ceid :: jstring
  csource :: jstring
  ctarget :: jstring

record 'n graph =
  cnodes :: "'n cynode list"
  cedges :: "cyedge list"

text \<open>\<open>cy.getElementById(id)\<close> for the id of a node; \<open>None\<close> is the empty collection.\<close>

definition getElementById :: "'n graph \<Rightarrow> jstring \<Rightarrow> 'n cynode option" where
  "getElementById g i = find (\<lambda>n. cid n = i) (cnodes g)"

text \<open>\<open>node.position({x, y})\<close> on the node with the given id.\<close>

definition setPosition :: "'n graph \<Rightarrow> jstring \<Rightarrow> 'n \<times> 'n \<Rightarrow> 'n graph" where
  "setPosition g i p =
     g\<lparr>cnodes := map (\<lambda>n. if cid n = i then n\<lparr>cpos := p\<rparr> else n) (cnodes g)\<rparr>"

text \<open>The source of the first edge in \<open>focus.incomers("edge")\<close>.\<close>

definition incomerSource :: "'n graph \<Rightarrow> jstring \<Rightarrow> 'n cynode option" where
  "incomerSource g focusId =
     (case filter (\<lambda>e. ctarget e = focusId) (cedges g) of
        [] \<Rightarrow> None
      | e # rest \<Rightarrow> getElementById g (csource e))"

text \<open>
  \<open>Array.prototype.sort\<close> with the comparator \<open>(a, b) => a.localeCompare(b)\<close>. The
  collation is a parameter: \<open>le a b\<close> stands for \<open>a.localeCompare(b) <= 0\<close>. The sort is
  stable, which for a consistent comparator fixes its result; insertion from the right
  computes that result.
\<close>

fun insortBy :: "('a \<Rightarrow> 'a \<Rightarrow> bool) \<Rightarrow> 'a \<Rightarrow> 'a list \<Rightarrow> 'a list" where
  "insortBy le x [] = [x]"
| "insortBy le x (y # ys) = (if le x y then x # y # ys else y # insortBy le x ys)"

definition sortBy :: "('a \<Rightarrow> 'a \<Rightarrow> bool) \<Rightarrow> 'a list \<Rightarrow> 'a list" where
  "sortBy le xs = foldr (insortBy le) xs []"

subsection \<open>\<open>computeRingPositions\<close> (the version that sorts by id)\<close>




subsection \<open>\<open>placeChildrenForward\<close> (the version that sorts by id)\<close>

definition direction ::
  "('n::{minus,inverse}) math \<Rightarrow> 'n graph \<Rightarrow> jstring \<Rightarrow> 'n \<times> 'n \<Rightarrow> 'n \<times> 'n" where
  "direction M g focusId fp =
     (let (dx, dy) =
            (case incomerSource g focusId of
               None \<Rightarrow> (lit M 1, lit M 0)
             | Some parent \<Rightarrow> (fst fp - fst (cpos parent), snd fp - snd (cpos parent)));
          h = hypot M dx dy;
          len = (if falsy M h then lit M 1 else h)
      in (dx / len, dy / len))"

text \<open>\<open>ok\<close> after the \<open>forEach\<close> over \<open>cy.nodes()\<close>: no node other than the child is closer
  than \<open>minSep\<close>.\<close>

definition separated ::
  "('n::{minus,ord}) math \<Rightarrow> 'n graph \<Rightarrow> jstring \<Rightarrow> 'n \<times> 'n \<Rightarrow> bool" where
  "separated M g ident p =
     list_all (\<lambda>n. cid n = ident \<or>
                  \<not> hypot M (fst (cpos n) - fst p) (snd (cpos n) - snd p) < lit M 62)
       (cnodes g)"

text \<open>The loop \<open>for (let k = 0; k < 8; k++)\<close>, by the number of rounds that remain.\<close>

fun pushForward ::
  "('n::{plus,minus,times,ord}) math \<Rightarrow> 'n graph \<Rightarrow> jstring \<Rightarrow> 'n \<Rightarrow> 'n \<Rightarrow> nat \<Rightarrow> 'n \<times> 'n \<Rightarrow>
     'n \<times> 'n" where
  "pushForward M g ident dx dy 0 p = p"
| "pushForward M g ident dx dy (Suc k) p =
     (if separated M g ident p then p
      else pushForward M g ident dx dy k (fst p + dx * lit M 40, snd p + dy * lit M 40))"

text \<open>The loop over the sorted ids. \<open>fp\<close> is the live position object of the focus, so
  it is read from the graph as it stands.\<close>

fun placeSorted ::
  "('n::{plus,minus,times,abs,ord}) math \<Rightarrow> 'n cynode \<Rightarrow> 'n \<Rightarrow> 'n \<Rightarrow> 'n \<Rightarrow> 'n \<Rightarrow> 'n \<Rightarrow>
     jstring list \<Rightarrow> nat \<Rightarrow> 'n graph \<Rightarrow> 'n graph" where
  "placeSorted M focus dx dy px py mid [] i g = g"
| "placeSorted M focus dx dy px py mid (ident # ids) i g =
     (case getElementById g ident of
        None \<Rightarrow> placeSorted M focus dx dy px py mid ids (i + 1) g
      | Some child \<Rightarrow>
          (let fp = (case getElementById g (cid focus) of None \<Rightarrow> cpos focus | Some f \<Rightarrow> cpos f);
               t = lit M (int i) - mid;
               side = t * lit M 70;
               fd = lit M 200 + abs t * lit M 28;
               x = fst fp + dx * fd + px * side;
               y = snd fp + dy * fd + py * side
           in placeSorted M focus dx dy px py mid ids (i + 1)
                (setPosition g ident (pushForward M g ident dx dy 8 (x, y)))))"

definition placeChildrenForward ::
  "('n::{plus,minus,times,inverse,uminus,abs,ord}) math \<Rightarrow> (jstring \<Rightarrow> jstring \<Rightarrow> bool) \<Rightarrow>
     'n graph \<Rightarrow> jstring \<Rightarrow> jstring list \<Rightarrow> 'n graph" where
  "placeChildrenForward M le g focusId childIds =
     (case getElementById g focusId of
        None \<Rightarrow> g
      | Some focus \<Rightarrow>
          (let (dx, dy) = direction M g focusId (cpos focus);
               px = - dy;
               py = dx;
               ids = sortBy le childIds;
               mid = lit M (int (length ids) - 1) / lit M 2
           in placeSorted M focus dx dy px py mid ids 0 g))"

subsection \<open>\<open>placeChildrenForward\<close> (the version with pending placeholders)\<close>

definition direction_pending ::
  "('n::{minus,inverse}) math \<Rightarrow> 'n graph \<Rightarrow> jstring \<Rightarrow> 'n \<times> 'n \<Rightarrow> 'n \<times> 'n" where
  "direction_pending M g parentId p =
     (case incomerSource g parentId of
        None \<Rightarrow> (lit M 1, lit M 0)
      | Some src \<Rightarrow>
          (let vx = fst p - fst (cpos src);
               vy = snd p - snd (cpos src);
               h = hypot M vx vy;
               len = (if falsy M h then lit M 1 else h)
           in (vx / len, vy / len)))"

fun placeEach_pending ::
  "('n::{plus,minus,times,inverse,uminus}) math \<Rightarrow> 'n cynode \<Rightarrow> 'n \<Rightarrow> 'n \<Rightarrow> nat \<Rightarrow>
     jstring list \<Rightarrow> nat \<Rightarrow> 'n graph \<Rightarrow> 'n graph" where
  "placeEach_pending M parent vx vy len [] i g = g"
| "placeEach_pending M parent vx vy len (c # cs) i g =
     (case getElementById g c of
        None \<Rightarrow> placeEach_pending M parent vx vy len cs (i + 1) g
      | Some child \<Rightarrow>
          (let p = (case getElementById g (cid parent) of None \<Rightarrow> cpos parent | Some f \<Rightarrow> cpos f);
               t = lit M (int i) - lit M (int len - 1) / lit M 2;
               px = - vy;
               py = vx
           in placeEach_pending M parent vx vy len cs (i + 1)
                (setPosition g c
                   (fst p + vx * lit M 190 + px * lit M 120 * t,
                    snd p + vy * lit M 190 + py * lit M 120 * t))))"

definition placeChildrenForward_pending ::
  "('n::{plus,minus,times,inverse,uminus}) math \<Rightarrow> 'n graph \<Rightarrow> jstring \<Rightarrow> jstring list \<Rightarrow>
     'n graph" where
  "placeChildrenForward_pending M g parentId childIds =
     (case getElementById g parentId of
        None \<Rightarrow> g
      | Some parent \<Rightarrow>
          (let (vx, vy) = direction_pending M g parentId (cpos parent)
           in placeEach_pending M parent vx vy (length childIds) childIds 0 g))"

text \<open>The arithmetic of the real numbers, for running the layout on concrete graphs.\<close>

definition realMath :: "real math" where
  "realMath =
     \<lparr>lit = of_int, hypot = (\<lambda>x y. sqrt (x * x + y * y)), cosine = cos, sine = sin,
      piConst = pi, falsy = (\<lambda>x. x = 0)\<rparr>"

subsection \<open>Frames, position calls and concrete graphs\<close>


definition fanGraph :: "real graph" where
  "fanGraph =
     \<lparr>cnodes =
        [\<lparr>cid = u16 ''root'', cdepth = 0, cpos = (0, 0)\<rparr>,
         \<lparr>cid = u16 ''f'', cdepth = 1, cpos = (170, 0)\<rparr>,
         \<lparr>cid = u16 ''a'', cdepth = 2, cpos = (0, 0)\<rparr>,
         \<lparr>cid = u16 ''b'', cdepth = 2, cpos = (0, 0)\<rparr>],
      cedges =
        [\<lparr>ceid = u16 ''e0'', csource = u16 ''root'', ctarget = u16 ''f''\<rparr>,
         \<lparr>ceid = u16 ''e1'', csource = u16 ''f'', ctarget = u16 ''a''\<rparr>,
         \<lparr>ceid = u16 ''e2'', csource = u16 ''f'', ctarget = u16 ''b''\<rparr>]\<rparr>"


text \<open>The effect of a sequence of \<open>position\<close> calls on one node, and the sequence that
  \<open>computeRingPositions\<close> makes.\<close>

definition applyCalls :: "(jstring \<times> 'n \<times> 'n) list \<Rightarrow> 'n cynode \<Rightarrow> 'n cynode" where
  "applyCalls calls n = fold (\<lambda>(i, p) m. if cid m = i then m\<lparr>cpos := p\<rparr> else m) calls n"



section \<open>Facts about the sanitizer's building blocks\<close>

lemma bindE_Inr [simp]: "bindE (Inr x) f = f x"
  by (simp add: bindE_def)

lemma bindE_Inl [simp]: "bindE (Inl e) f = Inl e"
  by (simp add: bindE_def)

lemma bindE_eq_Inr: "bindE m f = Inr y \<longleftrightarrow> (\<exists>x. m = Inr x \<and> f x = Inr y)"
  by (cases m) simp_all

lemma filterE_Inr: "filterE p xs = Inr ys \<Longrightarrow> ys = filter (\<lambda>x. p x = Inr True) xs"
  by (induction xs arbitrary: ys) (auto simp: bindE_eq_Inr)

lemma mapE_Inr: "mapE f xs = Inr ys \<Longrightarrow> list_all2 (\<lambda>x y. f x = Inr y) xs ys"
  by (induction xs arbitrary: ys) (auto simp: bindE_eq_Inr)

lemma loop_fresh: "makeUniqueId_loop base used ident i \<notin> set used"
proof (induction base used ident i rule: makeUniqueId_loop.induct)
  case (1 base used ident i)
  then show ?case
    by (subst makeUniqueId_loop.simps) simp
qed

lemma loop_shape:
  "makeUniqueId_loop base used ident i = ident \<or>
   (\<exists>j\<ge>i. makeUniqueId_loop base used ident i = base @ u16 ''__'' @ dec j)"
proof (induction base used ident i rule: makeUniqueId_loop.induct)
  case (1 base used ident i)
  show ?case
  proof (cases "ident \<in> set used")
    case True
    with 1 have "makeUniqueId_loop base used (base @ u16 ''__'' @ dec i) (i + 1) = base @ u16 ''__'' @ dec i \<or>
      (\<exists>j\<ge>i + 1. makeUniqueId_loop base used (base @ u16 ''__'' @ dec i) (i + 1) = base @ u16 ''__'' @ dec j)"
      by blast
    then have "\<exists>j\<ge>i. makeUniqueId_loop base used (base @ u16 ''__'' @ dec i) (i + 1) = base @ u16 ''__'' @ dec j"
      by (metis add_leD1 order_refl)
    with True show ?thesis
      by (subst (1 2) makeUniqueId_loop.simps) simp
  next
    case False
    then show ?thesis
      by (subst makeUniqueId_loop.simps) simp
  qed
qed

lemma makeUniqueId_fresh:
  "makeUniqueId base used = (i, used1) \<Longrightarrow> i \<notin> set used \<and> used1 = i # used"
  using loop_fresh[of base used base 1] by (auto simp: makeUniqueId_def Let_def)

lemma makeUniqueId_shape:
  "makeUniqueId base used = (i, used1) \<Longrightarrow> i = base \<or> (\<exists>j\<ge>1. i = base @ u16 ''__'' @ dec j)"
  using loop_shape[of base used base 1] by (auto simp: makeUniqueId_def Let_def)

lemma uniquifyNodes_inv:
  "uniquifyNodes ns used = (ns', used') \<Longrightarrow>
     distinct (map nid ns') \<and> set (map nid ns') \<inter> set used = {} \<and>
     set used' = set used \<union> set (map nid ns') \<and>
     length ns' = length ns \<and> map ndepth ns' = map ndepth ns \<and>
     map nkind ns' = map nkind ns \<and> map nlabel ns' = map nlabel ns"
proof (induction ns arbitrary: used ns' used')
  case Nil
  then show ?case by simp
next
  case (Cons n ns)
  obtain i used1 where m: "makeUniqueId (nid n) used = (i, used1)"
    by (cases "makeUniqueId (nid n) used")
  obtain ms used2 where r: "uniquifyNodes ns used1 = (ms, used2)"
    by (cases "uniquifyNodes ns used1")
  from Cons.prems m r have eq: "ns' = n\<lparr>nid := i\<rparr> # ms" "used' = used2"
    by simp_all
  from makeUniqueId_fresh[OF m] have f: "i \<notin> set used" "used1 = i # used"
    by simp_all
  from Cons.IH[OF r] f eq show ?case
    by auto
qed

lemma mapE_Inr_set: "mapE f xs = Inr ys \<Longrightarrow> y \<in> set ys \<Longrightarrow> \<exists>x\<in>set xs. f x = Inr y"
  by (induction xs arbitrary: ys) (auto simp: bindE_eq_Inr)

lemma normalizeNode_depth: "normalizeNode fd ak n = Inr x \<Longrightarrow> ndepth x = fd + 1"
  by (auto simp: normalizeNode_def bindE_eq_Inr)

lemma extractNodes_depth:
  assumes "extractNodes fd ak raw = Inr ns" and "n \<in> set ns"
  shows "ndepth n = fd + 1"
proof -
  from assms(1) obtain arr ms where
    ms: "mapE (normalizeNode fd ak) (filter hasStringId arr) = Inr ms"
    and ns: "ns = filter (\<lambda>n. length (nid n) > 0) ms"
    by (auto simp: extractNodes_def bindE_eq_Inr)
  from ns assms(2) have "n \<in> set ms" by simp
  with mapE_Inr_set[OF ms] obtain j where "normalizeNode fd ak j = Inr n" by blast
  then show ?thesis by (rule normalizeNode_depth)
qed

lemma resolvedCandidates_inv:
  assumes "resolvedCandidates fd ex ak raw = Inr cs"
  shows "distinct (map nid cs)" and "set (map nid cs) \<inter> set ex = {}"
    and "\<forall>n\<in>set cs. ndepth n = fd + 1"
proof -
  from assms obtain ns where e: "extractNodes fd ak raw = Inr ns"
    and cs: "cs = fst (uniquifyNodes ns ex)"
    by (auto simp: resolvedCandidates_def bindE_eq_Inr)
  obtain used' where u: "uniquifyNodes ns ex = (cs, used')"
    using cs by (cases "uniquifyNodes ns ex") simp
  note inv = uniquifyNodes_inv[OF u]
  from inv show "distinct (map nid cs)" and "set (map nid cs) \<inter> set ex = {}"
    by simp_all
  from inv have "set (map ndepth cs) = set (map ndepth ns)" by simp
  moreover have "\<forall>d\<in>set (map ndepth ns). d = fd + 1"
    using extractNodes_depth[OF e] by auto
  ultimately have "\<forall>d\<in>set (map ndepth cs). d = fd + 1" by simp
  then show "\<forall>n\<in>set cs. ndepth n = fd + 1" by simp
qed

lemma capNodes_take: "capNodes ns = take 3 ns"
  by (simp add: capNodes_def)

lemma sanitizeNodes_inv:
  assumes "sanitizeNodes fd ex ak raw = Inr ns"
  shows "\<exists>cs. resolvedCandidates fd ex ak raw = Inr cs \<and>
           ns = take 3 (filter (languageOk (inferDomainFromAllowedKinds ak)) cs)"
  using assms by (auto simp: sanitizeNodes_def bindE_eq_Inr capNodes_take)

lemma sanitizeNodes_facts:
  assumes "sanitizeNodes fd ex ak raw = Inr ns"
  shows "distinct (map nid ns)" and "set (map nid ns) \<inter> set ex = {}"
    and "\<forall>n\<in>set ns. ndepth n = fd + 1" and "length ns \<le> 3"
proof -
  from sanitizeNodes_inv[OF assms] obtain cs where
    c: "resolvedCandidates fd ex ak raw = Inr cs"
    and ns: "ns = take 3 (filter (languageOk (inferDomainFromAllowedKinds ak)) cs)"
    by blast
  note inv = resolvedCandidates_inv[OF c]
  have sub: "set ns \<subseteq> set cs"
    using ns by (auto dest: in_set_takeD)
  show "distinct (map nid ns)"
    unfolding ns using inv(1) by (simp add: distinct_map_filter take_map[symmetric])
  show "set (map nid ns) \<inter> set ex = {}"
    using inv(2) sub by auto
  show "\<forall>n\<in>set ns. ndepth n = fd + 1"
    using inv(3) sub by auto
  show "length ns \<le> 3"
    unfolding ns by simp
qed

lemma modelEdge_inv:
  assumes "modelEdge F d ns used e i = Inr (x, used1)"
  shows "esource x = F" and "js_String_prop (getProp e (u16 ''target'')) = Inr (etarget x)"
    and "eid x \<notin> set used" and "used1 = eid x # used"
proof -
  from assms obtain target base where
    t: "js_String_prop (getProp e (u16 ''target'')) = Inr target"
    and rest: "(let (ident, used1) = makeUniqueId base used in
         bindE (js_String_prop (orElse (getProp e (u16 ''label'')) (Some (JStr relatedJa)))) (\<lambda>l.
           Inr (\<lparr>eid = ident, esource = F, etarget = target,
                 elabel = (if \<not> hasJapaneseChar l \<and> looksAsciiOnly l
                           then edgeLabelJa d (case find (\<lambda>n. nid n = target) ns of
                                                 None \<Rightarrow> [] | Some n \<Rightarrow> nkind n)
                           else LStr l)\<rparr>, used1))) = Inr (x, used1)"
    unfolding modelEdge_def bindE_eq_Inr by blast
  obtain ident u where m: "makeUniqueId base used = (ident, u)"
    by (cases "makeUniqueId base used")
  from rest m obtain l where x: "x = \<lparr>eid = ident, esource = F, etarget = target,
                 elabel = (if \<not> hasJapaneseChar l \<and> looksAsciiOnly l
                           then edgeLabelJa d (case find (\<lambda>n. nid n = target) ns of
                                                 None \<Rightarrow> [] | Some n \<Rightarrow> nkind n)
                           else LStr l)\<rparr>" and u: "used1 = u"
    by (auto simp: bindE_eq_Inr)
  from x show "esource x = F" by simp
  from x t show "js_String_prop (getProp e (u16 ''target'')) = Inr (etarget x)" by simp
  from makeUniqueId_fresh[OF m] x u show "eid x \<notin> set used" and "used1 = eid x # used"
    by simp_all
qed

lemma mapEdges_inv:
  "mapEdges F d ns js i used = Inr (es, used') \<Longrightarrow>
     (\<forall>x\<in>set es. esource x = F \<and>
        (\<exists>e\<in>set js. js_String_prop (getProp e (u16 ''target'')) = Inr (etarget x))) \<and>
     distinct (map eid es) \<and> set (map eid es) \<inter> set used = {} \<and>
     set used' = set used \<union> set (map eid es)"
proof (induction js arbitrary: i used es used')
  case Nil
  then show ?case by simp
next
  case (Cons e js)
  from Cons.prems obtain x used1 xs where
    m: "modelEdge F d ns used e i = Inr (x, used1)"
    and r: "mapEdges F d ns js (i + 1) used1 = Inr (xs, used')"
    and es: "es = x # xs"
    by (auto simp: bindE_eq_Inr)
  note a = modelEdge_inv[OF m] and b = Cons.IH[OF r]
  from a b es show ?case by auto
qed

lemma targetIsNew_True:
  "targetIsNew ids e = Inr True \<Longrightarrow>
     \<exists>t. js_String_prop (getProp e (u16 ''target'')) = Inr t \<and> t \<in> set ids"
  by (auto simp: targetIsNew_def bindE_eq_Inr)

lemma edgesFromModel_inv:
  assumes "edgesFromModel F d ns ex raw = Inr (ms, u)"
  shows "\<forall>x\<in>set ms. esource x = F \<and> etarget x \<in> set (map nid ns)"
    and "distinct (map eid ms)" and "set (map eid ms) \<inter> set ex = {}"
    and "set u = set ex \<union> set (map eid ms)"
proof -
  from assms obtain es1 es2 where
    f2: "filterE (targetIsNew (map nid ns)) es1 = Inr es2"
    and m: "mapEdges F d ns es2 0 ex = Inr (ms, u)"
    by (auto simp: edgesFromModel_def bindE_eq_Inr)
  note inv = mapEdges_inv[OF m]
  from inv show "distinct (map eid ms)" and "set (map eid ms) \<inter> set ex = {}"
    and "set u = set ex \<union> set (map eid ms)"
    by simp_all
  show "\<forall>x\<in>set ms. esource x = F \<and> etarget x \<in> set (map nid ns)"
  proof
    fix x assume x: "x \<in> set ms"
    with inv obtain e where e: "e \<in> set es2"
      and t: "js_String_prop (getProp e (u16 ''target'')) = Inr (etarget x)"
      and s: "esource x = F"
      by blast
    from filterE_Inr[OF f2] e have "targetIsNew (map nid ns) e = Inr True" by simp
    from targetIsNew_True[OF this] t have "etarget x \<in> set (map nid ns)" by auto
    with s show "esource x = F \<and> etarget x \<in> set (map nid ns)" by simp
  qed
qed

lemma supplement_inv:
  "supplement F d T ns used = (es, used') \<Longrightarrow>
     (\<forall>x\<in>set es. etarget x \<notin> set T \<and> (\<exists>n\<in>set ns. synthesizedEdge F d n x)) \<and>
     (\<forall>n\<in>set ns. nid n \<notin> set T \<longrightarrow> (\<exists>x\<in>set es. synthesizedEdge F d n x)) \<and>
     distinct (map eid es) \<and> set (map eid es) \<inter> set used = {} \<and>
     set used' = set used \<union> set (map eid es)"
proof (induction ns arbitrary: used es used')
  case Nil
  then show ?case by simp
next
  case (Cons n ns)
  show ?case
  proof (cases "nid n \<in> set T")
    case True
    with Cons.prems have "supplement F d T ns used = (es, used')" by simp
    from Cons.IH[OF this] True show ?thesis by auto
  next
    case False
    obtain i used1 where m: "makeUniqueId (F @ u16 ''--'' @ nid n @ u16 ''--auto'') used = (i, used1)"
      by (cases "makeUniqueId (F @ u16 ''--'' @ nid n @ u16 ''--auto'') used")
    obtain xs used2 where r: "supplement F d T ns used1 = (xs, used2)"
      by (cases "supplement F d T ns used1")
    let ?x = "\<lparr>eid = i, esource = F, etarget = nid n, elabel = edgeLabelJa d (nkind n)\<rparr>"
    from Cons.prems False m r have es: "es = ?x # xs" and u: "used' = used2"
      by simp_all
    have sx: "synthesizedEdge F d n ?x"
      using makeUniqueId_shape[OF m] by (simp add: synthesizedEdge_def)
    from makeUniqueId_fresh[OF m] have f: "i \<notin> set used" "used1 = i # used" by simp_all
    note ih = Cons.IH[OF r]
    have 1: "\<forall>x\<in>set es. etarget x \<notin> set T \<and> (\<exists>n\<in>set (n # ns). synthesizedEdge F d n x)"
      using es sx False ih by auto
    have 2: "\<forall>m\<in>set (n # ns). nid m \<notin> set T \<longrightarrow> (\<exists>x\<in>set es. synthesizedEdge F d m x)"
      using es sx ih by auto
    have 3: "distinct (map eid es) \<and> set (map eid es) \<inter> set used = {} \<and>
       set used' = set used \<union> set (map eid es)"
      using es u f ih by auto
    from 1 2 3 show ?thesis by blast
  qed
qed

lemma languageOk_Unknown: "languageOk Unknown n"
  by (simp add: languageOk_def shouldRequireJapaneseLabel_def)

lemma finalGuard_id:
  "ns = [] \<or> es \<noteq> [] \<Longrightarrow> finalGuard F d ns es used = es"
  by (auto simp: finalGuard_def split: list.splits)

lemma sanitize_decomp:
  assumes "sanitizeExpandResult F fd ex ak raw = Inr out"
  shows "\<exists>ms u supp u'.
     sanitizeNodes fd ex ak raw = Inr (nodes out) \<and>
     edgesFromModel F (inferDomainFromAllowedKinds ak) (nodes out) ex raw = Inr (ms, u) \<and>
     supplement F (inferDomainFromAllowedKinds ak) (map etarget ms) (nodes out) u = (supp, u') \<and>
     edges out = ms @ supp"
proof -
  let ?d = "inferDomainFromAllowedKinds ak"
  obtain ns where n: "sanitizeNodes fd ex ak raw = Inr ns"
    using assms by (cases "sanitizeNodes fd ex ak raw") (simp_all add: sanitizeExpandResult_def)
  obtain ms u where m: "edgesFromModel F ?d ns ex raw = Inr (ms, u)"
    using assms n by (cases "edgesFromModel F ?d ns ex raw")
      (auto simp add: sanitizeExpandResult_def)
  obtain supp u' where s: "supplement F ?d (map etarget ms) ns u = (supp, u')"
    by (cases "supplement F ?d (map etarget ms) ns u")
  from assms n m s have out: "out = \<lparr>nodes = ns, edges = finalGuard F ?d ns (ms @ supp) u'\<rparr>"
    by (simp add: sanitizeExpandResult_def)
  have "ns = [] \<or> ms @ supp \<noteq> []"
  proof (cases ns)
    case Nil
    then show ?thesis by simp
  next
    case (Cons n rest)
    show ?thesis
    proof (cases "nid n \<in> set (map etarget ms)")
      case True
      then show ?thesis by auto
    next
      case False
      with supplement_inv[OF s] Cons have "\<exists>x\<in>set supp. synthesizedEdge F ?d n x" by simp
      then show ?thesis by auto
    qed
  qed
  then have "finalGuard F ?d ns (ms @ supp) u' = ms @ supp"
    by (rule finalGuard_id)
  with out n m s show ?thesis by simp
qed

section \<open>The sanitizer on the concrete payloads\<close>

lemmas node_eval = extractNodes_def normalizeNode_def hasStringId_def fallbackKind_def
  trim_def isWhiteSpace_def u16_def

lemmas unique_eval = makeUniqueId_def makeUniqueId_loop.simps dec.simps Let_def

lemmas filter_eval = inferDomainFromAllowedKinds_def languageOk_def
  shouldRequireJapaneseLabel_def hasJapaneseChar_def looksAsciiOnly_def capNodes_def

lemmas edge_eval = edgesFromModel_def hasEndpoints_def sourceIsFocus_def targetIsNew_def
  modelEdge_def relatedJa_def

lemmas label_eval = edgeLabelJa_def recordLookup_def perfumeLabels_def

lemma scenario_domain: "inferDomainFromAllowedKinds [u16 ''root'', u16 ''concept''] = Unknown"
  by (simp add: filter_eval u16_def)

lemma scenario_extract:
  "extractNodes (0::int) [u16 ''root'', u16 ''concept''] scenarioRaw =
     Inr [\<lparr>nid = [97], nlabel = u16 ''Example'', nkind = u16 ''concept'', ndepth = 1\<rparr>,
          \<lparr>nid = [97], nlabel = [0x5225, 0x306E, 0x4F8B], nkind = u16 ''concept'', ndepth = 1\<rparr>]"
  by (simp add: scenarioRaw_def node_eval)

lemma scenario_candidates:
  "resolvedCandidates (0::int) [u16 ''root''] [u16 ''root'', u16 ''concept''] scenarioRaw =
     Inr scenarioNodes"
  unfolding resolvedCandidates_def scenario_extract bindE_Inr
  by (simp add: scenarioNodes_def unique_eval u16_def)

lemma scenario_nodes:
  "sanitizeNodes (0::int) [u16 ''root''] [u16 ''root'', u16 ''concept''] scenarioRaw = Inr scenarioNodes"
  unfolding sanitizeNodes_def scenario_candidates bindE_Inr scenario_domain
  by (simp add: scenarioNodes_def filter_eval u16_def)

lemma scenario_model_edges:
  "edgesFromModel (u16 ''root'') Unknown ns [u16 ''root''] scenarioRaw = Inr ([], [u16 ''root''])"
  by (simp add: scenarioRaw_def edge_eval u16_def)

lemma scenario_eval:
  "sanitizeExpandResult (u16 ''root'') (0::int) [u16 ''root''] [u16 ''root'', u16 ''concept'']
     scenarioRaw = Inr scenarioOut"
  unfolding sanitizeExpandResult_def scenario_domain Let_def scenario_nodes bindE_Inr
    scenario_model_edges prod.case list.map
  by (simp add: scenarioNodes_def scenarioOut_def finalGuard_def unique_eval label_eval relatedJa_def u16_def)





lemma four_domain:
  "inferDomainFromAllowedKinds [u16 ''root'', u16 ''brand'', u16 ''note''] = Perfume"
  by (simp add: filter_eval u16_def)

lemma four_extract:
  "extractNodes (0::int) [u16 ''root'', u16 ''brand'', u16 ''note''] fourNodesRaw =
     Inr [\<lparr>nid = [97], nlabel = [65], nkind = u16 ''note'', ndepth = 1\<rparr>,
          \<lparr>nid = [98], nlabel = [66], nkind = u16 ''brand'', ndepth = 1\<rparr>,
          \<lparr>nid = [99], nlabel = [67], nkind = u16 ''brand'', ndepth = 1\<rparr>,
          \<lparr>nid = [100], nlabel = [68], nkind = u16 ''brand'', ndepth = 1\<rparr>]"
  by (simp add: fourNodesRaw_def node_eval)

lemma four_candidates:
  "resolvedCandidates (0::int) [u16 ''root''] [u16 ''root'', u16 ''brand'', u16 ''note''] fourNodesRaw =
     Inr fourCandidates"
  unfolding resolvedCandidates_def four_extract bindE_Inr
  by (simp add: fourCandidates_def unique_eval u16_def)

lemma four_filtered: "filter (languageOk Perfume) fourCandidates = tl fourCandidates"
  by (simp add: fourCandidates_def filter_eval u16_def)

lemma four_nodes:
  "sanitizeNodes (0::int) [u16 ''root''] [u16 ''root'', u16 ''brand'', u16 ''note''] fourNodesRaw =
     Inr (tl fourCandidates)"
  unfolding sanitizeNodes_def four_candidates bindE_Inr four_domain four_filtered
  by (simp add: fourCandidates_def capNodes_def)

lemma four_model_edges:
  "edgesFromModel (u16 ''root'') Perfume ns [u16 ''root''] fourNodesRaw = Inr ([], [u16 ''root''])"
  by (simp add: fourNodesRaw_def edge_eval u16_def)

lemma four_eval:
  "sanitizeExpandResult (u16 ''root'') (0::int) [u16 ''root''] [u16 ''root'', u16 ''brand'', u16 ''note'']
     fourNodesRaw = Inr fourNodesOut"
  unfolding sanitizeExpandResult_def four_domain Let_def four_nodes bindE_Inr
    four_model_edges prod.case list.map
  by (simp add: fourCandidates_def fourNodesOut_def finalGuard_def unique_eval label_eval u16_def)

lemma nonarray_nodes:
  "sanitizeExpandResult (u16 ''root'') (0::int) [u16 ''root''] [u16 ''root'', u16 ''concept'']
     (JObj [(u16 ''nodes'', JStr (u16 ''none''))]) = Inl TypeError"
  by (simp add: sanitizeExpandResult_def sanitizeNodes_def resolvedCandidates_def
      extractNodes_def u16_def)

lemma nonarray_edges:
  "sanitizeExpandResult (u16 ''root'') (0::int) [u16 ''root''] [u16 ''root'', u16 ''concept'']
     (JObj [(u16 ''edges'', JObj [])]) = Inl TypeError"
  by (simp add: sanitizeExpandResult_def sanitizeNodes_def resolvedCandidates_def
      extractNodes_def edgesFromModel_def capNodes_def u16_def)

section \<open>Properties of \<open>sanitizeExpandResult\<close>\<close>

text \<open>
  C1. The claim: for every input, any JSON payload included, also one whose \<open>nodes\<close> or
  \<open>edges\<close> field is present but not an array, \<open>sanitizeExpandResult\<close> never raises.
  The code calls \<open>.filter\<close> on \<open>raw?.nodes ?? []\<close> and on \<open>raw?.edges ?? []\<close>: a field
  that is a string, or an object, has no such method, and the call throws a TypeError.
\<close>

theorem sanitize_raises_on_non_array:
  "sanitizeExpandResult (u16 ''root'') (0::int) [u16 ''root''] [u16 ''root'', u16 ''concept'']
     (JObj [(u16 ''nodes'', JStr (u16 ''none''))]) = Inl TypeError \<and>
   sanitizeExpandResult (u16 ''root'') (0::int) [u16 ''root''] [u16 ''root'', u16 ''concept'']
     (JObj [(u16 ''edges'', JObj [])]) = Inl TypeError"
  using nonarray_nodes nonarray_edges by (rule conjI)

text \<open>
  C2. Whenever the sanitizer returns: a non-empty node list comes with a non-empty edge
  list; every output node is the target of an output edge; and the output edges are
  the surviving model edges followed by the synthesized ones, where a node that no
  surviving model edge targets has a synthesized edge from the focus, with an
  auto-generated id and the label that \<open>edgeLabelJa\<close> derives from the node's kind.
\<close>

theorem connectivity_from_focus:
  assumes "sanitizeExpandResult focusId focusDepth existingElementIds allowedKinds raw = Inr out"
  shows "(nodes out \<noteq> [] \<longrightarrow> edges out \<noteq> []) \<and>
         (\<forall>n\<in>set (nodes out). \<exists>e\<in>set (edges out). etarget e = nid n) \<and>
         (\<exists>ms u supp.
            edgesFromModel focusId (inferDomainFromAllowedKinds allowedKinds) (nodes out)
              existingElementIds raw = Inr (ms, u) \<and>
            edges out = ms @ supp \<and>
            (\<forall>n\<in>set (nodes out). nid n \<notin> etarget ` set ms \<longrightarrow>
               (\<exists>e\<in>set supp.
                  synthesizedEdge focusId (inferDomainFromAllowedKinds allowedKinds) n e)))"
proof -
  let ?d = "inferDomainFromAllowedKinds allowedKinds"
  from sanitize_decomp[OF assms] obtain ms u supp u' where
    m: "edgesFromModel focusId ?d (nodes out) existingElementIds raw = Inr (ms, u)"
    and s: "supplement focusId ?d (map etarget ms) (nodes out) u = (supp, u')"
    and e: "edges out = ms @ supp"
    by blast
  from supplement_inv[OF s] have
    syn: "\<forall>n\<in>set (nodes out). nid n \<notin> etarget ` set ms \<longrightarrow>
            (\<exists>x\<in>set supp. synthesizedEdge focusId ?d n x)"
    by simp
  have conn: "\<forall>n\<in>set (nodes out). \<exists>x\<in>set (edges out). etarget x = nid n"
  proof
    fix n assume n: "n \<in> set (nodes out)"
    show "\<exists>x\<in>set (edges out). etarget x = nid n"
    proof (cases "nid n \<in> etarget ` set ms")
      case True
      then show ?thesis using e by auto
    next
      case False
      with syn n obtain x where "x \<in> set supp" "synthesizedEdge focusId ?d n x" by blast
      then show ?thesis using e by (auto simp: synthesizedEdge_def)
    qed
  qed
  have ne: "nodes out \<noteq> [] \<longrightarrow> edges out \<noteq> []"
  proof
    assume "nodes out \<noteq> []"
    then obtain n where "n \<in> set (nodes out)" by (cases "nodes out") auto
    with conn show "edges out \<noteq> []" by fastforce
  qed
  from ne conn m e syn show ?thesis by blast
qed

theorem connectivity_from_focus_witness:
  "sanitizeExpandResult (u16 ''root'') (0::int) [u16 ''root''] [u16 ''root'', u16 ''concept'']
     scenarioRaw = Inr scenarioOut \<and>
   edges scenarioOut \<noteq> [] \<and>
   (\<exists>e\<in>set (edges scenarioOut). etarget e = u16 ''a__1'')"
proof -
  note c = connectivity_from_focus[OF scenario_eval]
  have n: "nodes scenarioOut \<noteq> []"
    by (simp add: scenarioOut_def scenarioNodes_def)
  have m: "\<lparr>nid = u16 ''a__1'', nlabel = [0x5225, 0x306E, 0x4F8B], nkind = u16 ''concept'',
            ndepth = 1\<rparr> \<in> set (nodes scenarioOut)"
    by (simp add: scenarioOut_def scenarioNodes_def)
  from c n have 1: "edges scenarioOut \<noteq> []" by blast
  from c m have 2: "\<exists>e\<in>set (edges scenarioOut). etarget e = u16 ''a__1''" by fastforce
  from scenario_eval 1 2 show ?thesis by blast
qed




text \<open>
  C4. Whenever the sanitizer returns, every output edge has the focus as its source and
  the id of an output node as its target; the target is no member of
  \<open>existingElementIds\<close>, and it is not the id of a candidate that the language filter
  or the cap dropped.
\<close>

theorem edges_star_shaped:
  assumes "sanitizeExpandResult focusId focusDepth existingElementIds allowedKinds raw = Inr out"
  shows "\<forall>e\<in>set (edges out).
           esource e = focusId \<and> etarget e \<in> nid ` set (nodes out) \<and>
           etarget e \<notin> set existingElementIds \<and>
           (\<forall>cs c. resolvedCandidates focusDepth existingElementIds allowedKinds raw = Inr cs \<longrightarrow>
              c \<in> set cs \<longrightarrow> c \<notin> set (nodes out) \<longrightarrow> etarget e \<noteq> nid c)"
proof
  fix e assume ein: "e \<in> set (edges out)"
  let ?d = "inferDomainFromAllowedKinds allowedKinds"
  from sanitize_decomp[OF assms] obtain ms u supp u' where
    n: "sanitizeNodes focusDepth existingElementIds allowedKinds raw = Inr (nodes out)"
    and m: "edgesFromModel focusId ?d (nodes out) existingElementIds raw = Inr (ms, u)"
    and s: "supplement focusId ?d (map etarget ms) (nodes out) u = (supp, u')"
    and e: "edges out = ms @ supp"
    by blast
  note nf = sanitizeNodes_facts[OF n] and mf = edgesFromModel_inv[OF m]
    and sf = supplement_inv[OF s]
  have st: "esource e = focusId \<and> etarget e \<in> nid ` set (nodes out)"
  proof (cases "e \<in> set ms")
    case True
    with mf(1) show ?thesis by auto
  next
    case False
    with ein e have "e \<in> set supp" by simp
    with sf obtain k where "k \<in> set (nodes out)" "synthesizedEdge focusId ?d k e" by blast
    then show ?thesis by (auto simp: synthesizedEdge_def)
  qed
  with nf(2) have ex: "etarget e \<notin> set existingElementIds" by auto
  have dropped: "\<forall>cs c. resolvedCandidates focusDepth existingElementIds allowedKinds raw = Inr cs \<longrightarrow>
              c \<in> set cs \<longrightarrow> c \<notin> set (nodes out) \<longrightarrow> etarget e \<noteq> nid c"
  proof (intro allI impI)
    fix cs c
    assume r: "resolvedCandidates focusDepth existingElementIds allowedKinds raw = Inr cs"
      and c: "c \<in> set cs" and cn: "c \<notin> set (nodes out)"
    from sanitizeNodes_inv[OF n] r have
      ns: "nodes out = take 3 (filter (languageOk ?d) cs)" by simp
    then have sub: "set (nodes out) \<subseteq> set cs" by (auto dest: in_set_takeD)
    from resolvedCandidates_inv(1)[OF r] have inj: "inj_on nid (set cs)"
      by (simp add: distinct_map)
    show "etarget e \<noteq> nid c"
    proof
      assume "etarget e = nid c"
      with st obtain k where k: "k \<in> set (nodes out)" "nid k = nid c" by auto
      with sub c inj have "k = c" by (auto dest: inj_onD)
      with k cn show False by simp
    qed
  qed
  from st ex dropped
  show "esource e = focusId \<and> etarget e \<in> nid ` set (nodes out) \<and>
           etarget e \<notin> set existingElementIds \<and>
           (\<forall>cs c. resolvedCandidates focusDepth existingElementIds allowedKinds raw = Inr cs \<longrightarrow>
              c \<in> set cs \<longrightarrow> c \<notin> set (nodes out) \<longrightarrow> etarget e \<noteq> nid c)"
    by blast
qed

theorem edges_star_shaped_witness:
  "sanitizeExpandResult (u16 ''root'') (0::int) [u16 ''root''] [u16 ''root'', u16 ''brand'', u16 ''note'']
     fourNodesRaw = Inr fourNodesOut \<and>
   resolvedCandidates (0::int) [u16 ''root''] [u16 ''root'', u16 ''brand'', u16 ''note''] fourNodesRaw =
     Inr fourCandidates \<and>
   hd fourCandidates \<in> set fourCandidates \<and> hd fourCandidates \<notin> set (nodes fourNodesOut) \<and>
   esource (hd (edges fourNodesOut)) = u16 ''root'' \<and>
   etarget (hd (edges fourNodesOut)) \<in> nid ` set (nodes fourNodesOut) \<and>
   etarget (hd (edges fourNodesOut)) \<notin> set [u16 ''root''] \<and>
   etarget (hd (edges fourNodesOut)) \<noteq> nid (hd fourCandidates)"
proof -
  note c = edges_star_shaped[OF four_eval]
  have e: "hd (edges fourNodesOut) \<in> set (edges fourNodesOut)"
    by (simp add: fourNodesOut_def)
  have 1: "hd fourCandidates \<in> set fourCandidates"
    by (simp add: fourCandidates_def)
  have 2: "hd fourCandidates \<notin> set (nodes fourNodesOut)"
    by (simp add: fourNodesOut_def fourCandidates_def u16_def)
  from c e have 3: "esource (hd (edges fourNodesOut)) = u16 ''root'' \<and>
      etarget (hd (edges fourNodesOut)) \<in> nid ` set (nodes fourNodesOut) \<and>
      etarget (hd (edges fourNodesOut)) \<notin> set [u16 ''root'']"
    by blast
  from c e four_candidates 1 2 have 4: "etarget (hd (edges fourNodesOut)) \<noteq> nid (hd fourCandidates)"
    by blast
  from four_eval four_candidates 1 2 3 4 show ?thesis by blast
qed

text \<open>
  C5. Whenever the sanitizer returns, every output node has depth \<open>focusDepth + 1\<close>,
  whatever depth the payload carries. The sum is the one the code computes: \<open>+\<close> and
  \<open>1\<close> are the addition and the one of the number type, of which no law is assumed, so
  the statement holds for JavaScript's doubles at every \<open>focusDepth\<close> (where the double
  sum is rounded, as at 2^53, the depth is that rounded sum), and over the integers it is
  the successor.
\<close>

theorem depth_is_focusDepth_plus_one:
  assumes "sanitizeExpandResult focusId focusDepth existingElementIds allowedKinds raw = Inr out"
  shows "\<forall>n\<in>set (nodes out). ndepth n = focusDepth + 1"
proof -
  from sanitize_decomp[OF assms] have
    "sanitizeNodes focusDepth existingElementIds allowedKinds raw = Inr (nodes out)"
    by blast
  then show ?thesis by (rule sanitizeNodes_facts(3))
qed

theorem depth_is_focusDepth_plus_one_witness:
  "sanitizeExpandResult (u16 ''root'') (0::int) [u16 ''root''] [u16 ''root'', u16 ''concept'']
     scenarioRaw = Inr scenarioOut \<and>
   list_all (\<lambda>n. ndepth n = 0 + 1) (nodes scenarioOut)"
proof -
  from depth_is_focusDepth_plus_one[OF scenario_eval]
  have "list_all (\<lambda>n. ndepth n = 0 + 1) (nodes scenarioOut)"
    by (simp add: list_all_iff)
  with scenario_eval show ?thesis by blast
qed

text \<open>
  C6. The claim: in the scenario the node \<open>a\<close> is dropped by the language filter and
  exactly one edge, root to \<open>a__1\<close>, is synthesized. The vocabulary \<open>root\<close>, \<open>concept\<close>
  holds no marker kind, so the domain is unknown and the filter drops nothing: the
  output keeps the node \<open>a\<close> and has two edges.
\<close>

theorem scenario_keeps_both_nodes:
  "sanitizeExpandResult (u16 ''root'') (0::int) [u16 ''root''] [u16 ''root'', u16 ''concept'']
     scenarioRaw = Inr scenarioOut \<and>
   map nid (nodes scenarioOut) = [u16 ''a'', u16 ''a__1''] \<and>
   map etarget (edges scenarioOut) = [u16 ''a'', u16 ''a__1'']"
  using scenario_eval by (simp add: scenarioOut_def scenarioNodes_def)

text \<open>
  C6, as the code has it: the scenario yields the two nodes \<open>a\<close> and \<open>a__1\<close>, both of
  kind \<open>concept\<close> and depth 1, both kept, and two synthesized edges, root to \<open>a\<close> and root
  to \<open>a__1\<close>, with the ids \<open>root--a--auto\<close> and \<open>root--a__1--auto\<close> and the generic label.
\<close>

theorem scenario_output:
  "sanitizeExpandResult (u16 ''root'') (0::int) [u16 ''root''] [u16 ''root'', u16 ''concept'']
     scenarioRaw =
   Inr \<lparr>nodes =
          [\<lparr>nid = u16 ''a'', nlabel = u16 ''Example'', nkind = u16 ''concept'', ndepth = 1\<rparr>,
           \<lparr>nid = u16 ''a__1'', nlabel = [0x5225, 0x306E, 0x4F8B], nkind = u16 ''concept'',
             ndepth = 1\<rparr>],
        edges =
          [\<lparr>eid = u16 ''root--a--auto'', esource = u16 ''root'', etarget = u16 ''a'',
             elabel = LStr [0x95A2, 0x9023]\<rparr>,
           \<lparr>eid = u16 ''root--a__1--auto'', esource = u16 ''root'', etarget = u16 ''a__1'',
             elabel = LStr [0x95A2, 0x9023]\<rparr>]\<rparr>"
  using scenario_eval by (simp add: scenarioOut_def scenarioNodes_def relatedJa_def)

text \<open>
  C7. The claim: the cap runs before the language filter, so that exactly the first
  three candidates are handed to the filter. In the code the filter is the last stage
  of the chain and the cap follows it: of four candidates whose first is rejected by
  the filter, the fourth is in the output, while capping first would leave two nodes.
\<close>

theorem fourth_candidate_survives:
  "resolvedCandidates (0::int) [u16 ''root''] [u16 ''root'', u16 ''brand'', u16 ''note''] fourNodesRaw =
     Inr fourCandidates \<and>
   sanitizeExpandResult (u16 ''root'') (0::int) [u16 ''root''] [u16 ''root'', u16 ''brand'', u16 ''note'']
     fourNodesRaw = Inr fourNodesOut \<and>
   map nid (nodes fourNodesOut) = [u16 ''b'', u16 ''c'', u16 ''d''] \<and>
   map nid (filter (languageOk Perfume) (capNodes fourCandidates)) = [u16 ''b'', u16 ''c'']"
  using four_candidates four_eval
  by (simp add: fourNodesOut_def fourCandidates_def filter_eval u16_def)

text \<open>
  C7, as the code has it: the language filter runs on every candidate that survives
  extraction and id-collision resolution, and the cap keeps the first three of the
  filter's survivors in payload order; the output has at most three nodes.
\<close>

theorem filter_then_cap:
  assumes "sanitizeExpandResult focusId focusDepth existingElementIds allowedKinds raw = Inr out"
  shows "(\<exists>cs. resolvedCandidates focusDepth existingElementIds allowedKinds raw = Inr cs \<and>
            nodes out =
              take 3 (filter (languageOk (inferDomainFromAllowedKinds allowedKinds)) cs)) \<and>
         length (nodes out) \<le> 3"
proof -
  from sanitize_decomp[OF assms] have
    n: "sanitizeNodes focusDepth existingElementIds allowedKinds raw = Inr (nodes out)"
    by blast
  from sanitizeNodes_inv[OF n] sanitizeNodes_facts(4)[OF n] show ?thesis by blast
qed

theorem filter_then_cap_witness:
  "sanitizeExpandResult (u16 ''root'') (0::int) [u16 ''root''] [u16 ''root'', u16 ''brand'', u16 ''note'']
     fourNodesRaw = Inr fourNodesOut \<and>
   (\<exists>cs. resolvedCandidates (0::int) [u16 ''root''] [u16 ''root'', u16 ''brand'', u16 ''note'']
            fourNodesRaw = Inr cs \<and>
          nodes fourNodesOut =
            take 3 (filter (languageOk (inferDomainFromAllowedKinds
              [u16 ''root'', u16 ''brand'', u16 ''note''])) cs)) \<and>
   length (nodes fourNodesOut) \<le> 3"
  using four_eval filter_then_cap[OF four_eval] by blast

text \<open>
  C10. For a vocabulary with none of the marker kinds \<open>producer\<close>, \<open>grape\<close>,
  \<open>appellation\<close>, \<open>brand\<close>, \<open>note\<close>, \<open>perfumer\<close>, the inferred domain is unknown,
  \<open>shouldRequireJapaneseLabel\<close> is false for every kind, and the language filter keeps
  every candidate it is given, whatever its label; the output nodes are then the
  candidates that survive extraction and id-collision resolution, cut to the first three
  by the cap.
\<close>

theorem unknown_domain_filter_keeps_all:
  assumes "u16 ''producer'' \<notin> set allowedKinds \<and> u16 ''grape'' \<notin> set allowedKinds \<and>
           u16 ''appellation'' \<notin> set allowedKinds \<and> u16 ''brand'' \<notin> set allowedKinds \<and>
           u16 ''note'' \<notin> set allowedKinds \<and> u16 ''perfumer'' \<notin> set allowedKinds"
  shows "inferDomainFromAllowedKinds allowedKinds = Unknown \<and>
         (\<forall>kind. \<not> shouldRequireJapaneseLabel (inferDomainFromAllowedKinds allowedKinds) kind) \<and>
         (\<forall>cs. filter (languageOk (inferDomainFromAllowedKinds allowedKinds)) cs = cs) \<and>
         (\<forall>out. sanitizeExpandResult focusId focusDepth existingElementIds allowedKinds raw = Inr out
            \<longrightarrow> (\<exists>cs. resolvedCandidates focusDepth existingElementIds allowedKinds raw = Inr cs \<and>
                       nodes out = capNodes cs))"
proof -
  from assms have d: "inferDomainFromAllowedKinds allowedKinds = Unknown"
    by (simp add: inferDomainFromAllowedKinds_def)
  have r: "\<forall>kind. \<not> shouldRequireJapaneseLabel (inferDomainFromAllowedKinds allowedKinds) kind"
    by (simp add: d shouldRequireJapaneseLabel_def)
  then have f: "\<forall>cs. filter (languageOk (inferDomainFromAllowedKinds allowedKinds)) cs = cs"
    by (simp add: languageOk_def)
  have o: "\<forall>out. sanitizeExpandResult focusId focusDepth existingElementIds allowedKinds raw = Inr out
            \<longrightarrow> (\<exists>cs. resolvedCandidates focusDepth existingElementIds allowedKinds raw = Inr cs \<and>
                       nodes out = capNodes cs)"
  proof (intro allI impI)
    fix out
    assume "sanitizeExpandResult focusId focusDepth existingElementIds allowedKinds raw = Inr out"
    from sanitize_decomp[OF this] have
      "sanitizeNodes focusDepth existingElementIds allowedKinds raw = Inr (nodes out)"
      by blast
    from sanitizeNodes_inv[OF this]
    show "\<exists>cs. resolvedCandidates focusDepth existingElementIds allowedKinds raw = Inr cs \<and>
            nodes out = capNodes cs"
      by (simp add: capNodes_take d languageOk_Unknown)
  qed
  from d r f o show ?thesis by blast
qed

theorem unknown_domain_filter_keeps_all_witness:
  "(u16 ''producer'' \<notin> set [u16 ''root'', u16 ''concept''] \<and>
    u16 ''grape'' \<notin> set [u16 ''root'', u16 ''concept''] \<and>
    u16 ''appellation'' \<notin> set [u16 ''root'', u16 ''concept''] \<and>
    u16 ''brand'' \<notin> set [u16 ''root'', u16 ''concept''] \<and>
    u16 ''note'' \<notin> set [u16 ''root'', u16 ''concept''] \<and>
    u16 ''perfumer'' \<notin> set [u16 ''root'', u16 ''concept'']) \<and>
   inferDomainFromAllowedKinds [u16 ''root'', u16 ''concept''] = Unknown \<and>
   filter (languageOk (inferDomainFromAllowedKinds [u16 ''root'', u16 ''concept'']))
     scenarioNodes = scenarioNodes \<and>
   (\<exists>cs. resolvedCandidates (0::int) [u16 ''root''] [u16 ''root'', u16 ''concept''] scenarioRaw = Inr cs \<and>
          nodes scenarioOut = capNodes cs)"
proof -
  have h: "u16 ''producer'' \<notin> set [u16 ''root'', u16 ''concept''] \<and>
    u16 ''grape'' \<notin> set [u16 ''root'', u16 ''concept''] \<and>
    u16 ''appellation'' \<notin> set [u16 ''root'', u16 ''concept''] \<and>
    u16 ''brand'' \<notin> set [u16 ''root'', u16 ''concept''] \<and>
    u16 ''note'' \<notin> set [u16 ''root'', u16 ''concept''] \<and>
    u16 ''perfumer'' \<notin> set [u16 ''root'', u16 ''concept'']"
    by (simp add: u16_def)
  note c = unknown_domain_filter_keeps_all[OF h, of "u16 ''root''" "0::int" "[u16 ''root'']" scenarioRaw]
  from c scenario_eval have
    "\<exists>cs. resolvedCandidates (0::int) [u16 ''root''] [u16 ''root'', u16 ''concept''] scenarioRaw = Inr cs \<and>
          nodes scenarioOut = capNodes cs"
    by blast
  with h c show ?thesis by blast
qed

section \<open>Facts about the layout\<close>

subsection \<open>Sorting\<close>

lemma set_insortBy: "set (insortBy le x xs) = insert x (set xs)"
  by (induction xs) auto

lemma mset_insortBy: "mset (insortBy le x xs) = add_mset x (mset xs)"
  by (induction xs) auto

lemma mset_sortBy: "mset (sortBy le xs) = mset xs"
  by (induction xs) (simp_all add: sortBy_def mset_insortBy)



lemma sorted_insortBy:
  assumes "\<forall>a b. le a b \<or> le b a" and "\<forall>a b c. le a b \<longrightarrow> le b c \<longrightarrow> le a c"
  shows "sorted_wrt le xs \<Longrightarrow> sorted_wrt le (insortBy le x xs)"
proof (induction xs)
  case Nil
  then show ?case by simp
next
  case (Cons y ys)
  show ?case
  proof (cases "le x y")
    case True
    with Cons.prems assms(2) show ?thesis by auto
  next
    case False
    with assms(1) have "le y x" by blast
    with Cons False show ?thesis by (auto simp: set_insortBy)
  qed
qed

lemma sorted_sortBy:
  assumes "\<forall>a b. le a b \<or> le b a" and "\<forall>a b c. le a b \<longrightarrow> le b c \<longrightarrow> le a c"
  shows "sorted_wrt le (sortBy le xs)"
  by (induction xs) (simp_all add: sortBy_def sorted_insortBy[OF assms])

lemma sorted_same_mset_eq:
  assumes refl: "\<forall>a. le a a" and anti: "\<forall>a b. le a b \<longrightarrow> le b a \<longrightarrow> a = b"
  shows "sorted_wrt le xs \<Longrightarrow> sorted_wrt le ys \<Longrightarrow> mset xs = mset ys \<Longrightarrow> xs = ys"
proof (induction xs arbitrary: ys)
  case Nil
  then show ?case by simp
next
  case (Cons x xs)
  from Cons.prems(3) obtain y ys' where ys: "ys = y # ys'"
    by (cases ys) auto
  have "x \<in> set ys" using Cons.prems(3) by (metis list.set_intros(1) mset_eq_setD)
  with ys Cons.prems(2) refl have 1: "le y x" by auto
  have "y \<in> set (x # xs)" using Cons.prems(3) ys by (metis list.set_intros(1) mset_eq_setD)
  with Cons.prems(1) refl have 2: "le x y" by auto
  from 1 2 anti have xy: "x = y" by blast
  with Cons.prems ys have "xs = ys'" by (intro Cons.IH) auto
  with xy ys show ?case by simp
qed

lemma sortBy_permutation:
  assumes "\<forall>a b. le a b \<or> le b a" and "\<forall>a b c. le a b \<longrightarrow> le b c \<longrightarrow> le a c"
    and "\<forall>a b. le a b \<longrightarrow> le b a \<longrightarrow> a = b" and "mset xs = mset ys"
  shows "sortBy le xs = sortBy le ys"
proof (rule sorted_same_mset_eq[of le])
  show "\<forall>a. le a a" using assms(1) by blast
  show "\<forall>a b. le a b \<longrightarrow> le b a \<longrightarrow> a = b" by (rule assms(3))
  show "sorted_wrt le (sortBy le xs)" by (rule sorted_sortBy[OF assms(1,2)])
  show "sorted_wrt le (sortBy le ys)" by (rule sorted_sortBy[OF assms(1,2)])
  show "mset (sortBy le xs) = mset (sortBy le ys)" by (simp add: mset_sortBy assms(4))
qed

lemma placeChildrenForward_sorted_order_independent:
  assumes "\<forall>a b. le a b \<or> le b a" and "\<forall>a b c. le a b \<longrightarrow> le b c \<longrightarrow> le a c"
    and "\<forall>a b. le a b \<longrightarrow> le b a \<longrightarrow> a = b" and "mset childIds = mset childIds'"
  shows "placeChildrenForward M le g focusId childIds =
         placeChildrenForward M le g focusId childIds'"
proof -
  have h: "sortBy le childIds = sortBy le childIds'"
    by (rule sortBy_permutation[OF assms])
  show ?thesis
    unfolding placeChildrenForward_def h by (rule refl)
qed

subsection \<open>Frame\<close>






subsection \<open>Ring placement as a list of position calls\<close>

lemma applyCalls_Nil [simp]: "applyCalls [] n = n"
  by (simp add: applyCalls_def)

lemma applyCalls_Cons [simp]:
  "applyCalls ((i, p) # cs) n = applyCalls cs (if cid n = i then n\<lparr>cpos := p\<rparr> else n)"
  by (simp add: applyCalls_def)













subsection \<open>Where ring placement puts each node\<close>








subsection \<open>Runs on concrete graphs\<close>


lemma sqrt_170: "sqrt (28900::real) = 170"
  by (rule real_sqrt_unique) simp_all

lemma fan_direction:
  "direction_pending realMath fanGraph (u16 ''f'') (170, 0) = (1, 0)"
  by (simp add: direction_pending_def incomerSource_def getElementById_def fanGraph_def
      realMath_def u16_def Let_def sqrt_170)

lemma fan_run_ab:
  "placeChildrenForward_pending realMath fanGraph (u16 ''f'') [u16 ''a'', u16 ''b''] =
     fanGraph\<lparr>cnodes :=
        [\<lparr>cid = u16 ''root'', cdepth = 0, cpos = (0, 0)\<rparr>,
         \<lparr>cid = u16 ''f'', cdepth = 1, cpos = (170, 0)\<rparr>,
         \<lparr>cid = u16 ''a'', cdepth = 2, cpos = (360, - 60)\<rparr>,
         \<lparr>cid = u16 ''b'', cdepth = 2, cpos = (360, 60)\<rparr>]\<rparr>"
proof -
  have f: "getElementById fanGraph (u16 ''f'') = Some \<lparr>cid = u16 ''f'', cdepth = 1, cpos = (170, 0)\<rparr>"
    by (simp add: getElementById_def fanGraph_def u16_def)
  show ?thesis
    unfolding placeChildrenForward_pending_def f option.case cynode.simps fan_direction
    by (simp add: getElementById_def setPosition_def fanGraph_def realMath_def u16_def)
qed

lemma fan_run_ba:
  "placeChildrenForward_pending realMath fanGraph (u16 ''f'') [u16 ''b'', u16 ''a''] =
     fanGraph\<lparr>cnodes :=
        [\<lparr>cid = u16 ''root'', cdepth = 0, cpos = (0, 0)\<rparr>,
         \<lparr>cid = u16 ''f'', cdepth = 1, cpos = (170, 0)\<rparr>,
         \<lparr>cid = u16 ''a'', cdepth = 2, cpos = (360, 60)\<rparr>,
         \<lparr>cid = u16 ''b'', cdepth = 2, cpos = (360, - 60)\<rparr>]\<rparr>"
proof -
  have f: "getElementById fanGraph (u16 ''f'') = Some \<lparr>cid = u16 ''f'', cdepth = 1, cpos = (170, 0)\<rparr>"
    by (simp add: getElementById_def fanGraph_def u16_def)
  show ?thesis
    unfolding placeChildrenForward_pending_def f option.case cynode.simps fan_direction
    by (simp add: getElementById_def setPosition_def fanGraph_def realMath_def u16_def)
qed





section \<open>Properties of the layout\<close>

text \<open>
  The version of \<open>placeChildrenForward\<close> that sorts the child ids: when the collation
  orders the ids linearly, two lists of the same ids in different orders are placed
  alike. The code-unit order of the ids is such a collation.
\<close>

lemma placeChildrenForward_sorted_code_unit_order:
  "placeChildrenForward M (\<le>) g focusId [u16 ''a'', u16 ''b''] =
   placeChildrenForward M (\<le>) g focusId [u16 ''b'', u16 ''a'']"
proof (rule placeChildrenForward_sorted_order_independent)
  show "\<forall>a b :: jstring. a \<le> b \<or> b \<le> a" by auto
  show "\<forall>a b c :: jstring. a \<le> b \<longrightarrow> b \<le> c \<longrightarrow> a \<le> c" by auto
  show "\<forall>a b :: jstring. a \<le> b \<longrightarrow> b \<le> a \<longrightarrow> a = b" by auto
  show "mset [u16 ''a'', u16 ''b''] = mset [u16 ''b'', u16 ''a'']" by simp
qed

text \<open>
  C8. The claim: two invocations of \<open>placeChildrenForward\<close> on the same graph with the
  same set of child ids, presented in different orders, assign identical coordinates.
  The version with pending placeholders does not sort: a child's coordinates come from
  its index in \<open>childIds\<close>. For the focus \<open>f\<close> at (170, 0) with parent \<open>root\<close> at (0, 0),
  the child \<open>a\<close> is placed at (360, -60) when the list is \<open>a\<close>, \<open>b\<close> and at (360, 60) when
  it is \<open>b\<close>, \<open>a\<close>.
\<close>

theorem pending_fanout_depends_on_order:
  "map cpos (cnodes (placeChildrenForward_pending realMath fanGraph (u16 ''f'')
      [u16 ''a'', u16 ''b''])) = [(0, 0), (170, 0), (360, - 60), (360, 60)] \<and>
   map cpos (cnodes (placeChildrenForward_pending realMath fanGraph (u16 ''f'')
      [u16 ''b'', u16 ''a''])) = [(0, 0), (170, 0), (360, 60), (360, - 60)]"
  by (simp add: fan_run_ab fan_run_ba)




end
